theory Spec2Isabelle
  imports Complex_Main
begin

section \<open>Python values used by \<open>libs/subcleaner/subtitle.py\<close>\<close>

text \<open>
  A Python \<open>str\<close> is a sequence of Unicode code points, so it is modelled as a list of
  naturals: \<open>len\<close> is \<open>length\<close>, and the em dash (U+2014) is one element.
  \<open>ustr\<close> turns an ASCII literal into such a list.
\<close>

type_synonym pystr = "nat list"

definition ustr :: "string \<Rightarrow> pystr" where
  "ustr s = map of_char s"

definition NL :: nat where
  "NL = 10"

definition arrow :: pystr where
  "arrow = [45, 45, 62]"

definition und :: pystr where
  "und = [117, 110, 100]"

text \<open>Truthiness of an optional string or list: \<open>None\<close> and the empty value are false.\<close>

definition truthy :: "'a list option \<Rightarrow> bool" where
  "truthy v = (case v of None \<Rightarrow> False | Some x \<Rightarrow> x \<noteq> [])"

text \<open>\<open>s.startswith(p)\<close> and \<open>p in s\<close> on strings.\<close>

fun startswith :: "pystr \<Rightarrow> pystr \<Rightarrow> bool" where
  "startswith s [] = True"
| "startswith [] (p # ps) = False"
| "startswith (c # cs) (p # ps) = (c = p \<and> startswith cs ps)"

fun contains :: "pystr \<Rightarrow> pystr \<Rightarrow> bool" where
  "contains [] p = (p = [])"
| "contains (c # cs) p = (startswith (c # cs) p \<or> contains cs p)"

text \<open>
  \<open>str.isnumeric()\<close>: at least one character, all of them with the Unicode numeric
  property. The table of numeric code points belongs to the interpreter; it is the
  parameter \<open>numeric\<close>.
\<close>

definition isnumeric :: "(nat \<Rightarrow> bool) \<Rightarrow> pystr \<Rightarrow> bool" where
  "isnumeric numeric s = (s \<noteq> [] \<and> list_all numeric s)"

text \<open>\<open>s.split(sep)\<close> for a one-character separator: never the empty list.\<close>

fun split_on :: "nat \<Rightarrow> pystr \<Rightarrow> pystr list" where
  "split_on sep [] = [[]]"
| "split_on sep (c # cs) =
     (if c = sep then [] # split_on sep cs
      else (case split_on sep cs of
              [] \<Rightarrow> [[c]]
            | w # ws \<Rightarrow> (c # w) # ws))"

text \<open>\<open>"\n".join(lines)\<close>.\<close>

fun join_nl :: "pystr list \<Rightarrow> pystr" where
  "join_nl [] = []"
| "join_nl [l] = l"
| "join_nl (l # m # ls) = l @ NL # join_nl (m # ls)"

text \<open>\<open>s.replace(a, b)\<close> for a one-character \<open>a\<close>.\<close>

definition replace1 :: "nat \<Rightarrow> pystr \<Rightarrow> pystr \<Rightarrow> pystr" where
  "replace1 a b s = concat (map (\<lambda>c. if c = a then b else [c]) s)"

text \<open>\<open>xs[a:b]\<close> for \<open>0 \<le> a\<close> and \<open>0 \<le> b\<close>.\<close>

definition slice :: "'a list \<Rightarrow> nat \<Rightarrow> nat \<Rightarrow> 'a list" where
  "slice xs a b = drop a (take b xs)"

text \<open>\<open>xs[-3:-1]\<close>: the last element is left out, then at most two are kept.\<close>

definition slice_m3_m1 :: "'a list \<Rightarrow> 'a list" where
  "slice_m3_m1 xs = drop (length xs - 3) (take (length xs - 1) xs)"

text \<open>\<open>str(i)\<close> for an integer.\<close>

fun digits :: "nat \<Rightarrow> pystr" where
  "digits n = (if n < 10 then [48 + n] else digits (n div 10) @ [48 + n mod 10])"

declare digits.simps [simp del]

definition str_int :: "int \<Rightarrow> pystr" where
  "str_int i = (if i < 0 then 45 # digits (nat (- i)) else digits (nat i))"

text \<open>
  The characters \<open>\s\<close> matches in a \<open>str\<close> pattern: the code points for which
  \<open>str.isspace()\<close> holds.
\<close>

definition isspace :: "nat \<Rightarrow> bool" where
  "isspace c = ((9 \<le> c \<and> c \<le> 13) \<or> (28 \<le> c \<and> c \<le> 32) \<or> c = 133 \<or> c = 160
      \<or> c = 5760 \<or> (8192 \<le> c \<and> c \<le> 8202) \<or> c = 8232 \<or> c = 8233 \<or> c = 8239
      \<or> c = 8287 \<or> c = 12288)"

text \<open>
  \<open>re.sub(r'\n\s*\n', '\n', s)\<close>. A match starts at a newline; the greedy \<open>\s*\<close> takes
  the whole run of whitespace after it and backtracks to the last newline of that run.
  With no newline in the run there is no match at this position. The search goes on
  after the match, so matches do not overlap.
\<close>

definition last_nl :: "pystr \<Rightarrow> nat option" where
  "last_nl w = (case filter (\<lambda>k. w ! k = NL) (rev [0..<length w]) of
                  [] \<Rightarrow> None | k # _ \<Rightarrow> Some k)"

function collapse_blank :: "pystr \<Rightarrow> pystr" where
  "collapse_blank [] = []"
| "collapse_blank (c # cs) =
     (if c = NL then
        (case last_nl (takeWhile isspace cs) of
           None \<Rightarrow> NL # collapse_blank cs
         | Some k \<Rightarrow> NL # collapse_blank (drop (Suc k) cs))
      else c # collapse_blank cs)"
  by pat_completeness auto
termination
  by (relation "measure length") auto

section \<open>Data model\<close>

text \<open>
  A path is its list of components; \<open>Path.name\<close> is the last one.
\<close>

type_synonym path = "pystr list"

definition path_name :: "path \<Rightarrow> pystr" where
  "path_name p = (if p = [] then [] else last p)"

text \<open>
  \<open>Path.suffixes\<close> of the standard library: nothing when the name ends with a dot,
  otherwise the leading dots are stripped and every dot-separated part after the first
  is a suffix, with its dot.
\<close>

definition suffixes :: "path \<Rightarrow> pystr list" where
  "suffixes p =
     (let name = path_name p in
      if name \<noteq> [] \<and> last name = 46 then []
      else map (\<lambda>x. 46 # x) (tl (split_on 46 (dropWhile (\<lambda>c. c = 46) name))))"

datatype encoding = UTF8 | CP1252

datatype error =
    ParsingException (subtitle_file : "path option")
  | SubtitleContentException path
  | LangDetectException
  | IndexError
  | UnicodeDecodeError
  | OSError

text \<open>
  Modelled from the spec: the class \<open>SubBlock\<close> (\<open>sub_block.py\<close>) is not part of the
  sources at hand. A block has its text content, a display index and a classification
  score; these are the three attributes \<open>subtitle.py\<close> reads or writes.
\<close>

record sub_block =
  content :: pystr
  current_index :: int
  regex_matches :: int

text \<open>One guess of the statistical detector: a language code and a probability.\<close>

record guess =
  lang :: pystr
  prob :: real

text \<open>
  The float literals \<open>0.8\<close> and \<open>0.9\<close> denote the nearest doubles; a probability is the
  real number its double stands for, so \<open>prob > 0.8\<close> compares with these values.
\<close>

definition float_0_8 :: real where
  "float_0_8 = 3602879701896397 / 4503599627370496"

definition float_0_9 :: real where
  "float_0_9 = 8106479329266893 / 9007199254740992"

text \<open>
  The modules \<open>subtitle.py\<close> imports, as far as it calls them: the \<open>SubBlock\<close>
  constructor (\<open>None\<close> when it raises \<open>ParsingException\<close>) and \<open>SubBlock.__str__\<close>,
  the language registry, the detector (\<open>None\<close> when it raises its
  \<open>LangDetectException\<close>), \<open>Path.relative_to\<close> (\<open>None\<close> for \<open>ValueError\<close>), opening and reading a file in an encoding, and the interpreter's
  table of numeric characters.
\<close>

record libs =
  SubBlock :: "pystr \<Rightarrow> sub_block option"
  block_str :: "sub_block \<Rightarrow> pystr"
  is_language :: "pystr \<Rightarrow> bool"
  get_2letter_code :: "pystr \<Rightarrow> pystr option"
  detect_langs :: "pystr \<Rightarrow> guess list option"
  relative_to :: "path \<Rightarrow> path \<Rightarrow> path option"
  open_read :: "path \<Rightarrow> encoding \<Rightarrow> error + pystr"
  numeric :: "nat \<Rightarrow> bool"

text \<open>The values of \<open>settings.args\<close> and \<open>settings.config\<close> that are read.\<close>

record settings =
  args_language :: "pystr option"
  args_destroy_list :: "int list option"
  config_default_language :: "pystr option"
  config_relative_base :: path

text \<open>
  \<open>SubBlock\<close> objects are compared by identity and mutated in place, so the document
  holds references: an address is a position in \<open>heap\<close>, the \<open>SubBlock\<close> objects
  created so far. \<open>language\<close> has no value before the constructor assigns it; the
  empty string stands for that.
\<close>

type_synonym ref = nat

record subtitle =
  sub_file :: path
  short_path :: path
  heap :: "sub_block list"
  blocks :: "ref list"
  ad_blocks :: "ref set"
  warning_blocks :: "ref set"
  language :: pystr

section \<open>The class \<open>Subtitle\<close>\<close>

definition warn :: "ref \<Rightarrow> subtitle \<Rightarrow> subtitle" where
  "warn block s =
     (if block \<notin> ad_blocks s
      then s\<lparr>warning_blocks := insert block (warning_blocks s)\<rparr>
      else s)"

definition ad :: "ref \<Rightarrow> subtitle \<Rightarrow> subtitle" where
  "ad block s =
     s\<lparr>warning_blocks := warning_blocks s - {block},
       ad_blocks := insert block (ad_blocks s)\<rparr>"

text \<open>
  \<open>_breakup_block\<close>. The loop \<open>for i in range(2, len(raw_blocks))\<close> with the variable
  \<open>last_break\<close>. Each \<open>SubBlock(...)\<close> call creates an object, at the next free address;
  it joins \<open>self.blocks\<close> when its content is not empty. A \<open>ParsingException\<close> leaves
  the loop.
\<close>

function breakup_loop ::
  "'a libs_scheme \<Rightarrow> pystr list \<Rightarrow> nat \<Rightarrow> nat \<Rightarrow> subtitle \<Rightarrow> error + subtitle" where
  "breakup_loop L raw_blocks i last_break s =
     (if i < length raw_blocks then
        (if contains (raw_blocks ! i) arrow \<and> isnumeric (numeric L) (raw_blocks ! (i - 1)) then
           (case SubBlock L (join_nl (slice raw_blocks last_break (i - 1))) of
              None \<Rightarrow> Inl (ParsingException None)
            | Some block \<Rightarrow>
                breakup_loop L raw_blocks (i + 1) (i - 1)
                  (if content block \<noteq> []
                   then s\<lparr>heap := heap s @ [block], blocks := blocks s @ [length (heap s)]\<rparr>
                   else s\<lparr>heap := heap s @ [block]\<rparr>))
         else breakup_loop L raw_blocks (i + 1) last_break s)
      else Inr s)"
  by pat_completeness auto
termination
  by (relation "measure (\<lambda>(L, raw_blocks, i, last_break, s). length raw_blocks - i)") auto

declare breakup_loop.simps [simp del]

definition breakup_block :: "'a libs_scheme \<Rightarrow> pystr list \<Rightarrow> subtitle \<Rightarrow> error + subtitle" where
  "breakup_block L raw_blocks s = breakup_loop L raw_blocks 2 0 s"

text \<open>\<open>_parse_file_content\<close>: blank lines collapsed, em dash replaced, split at newlines.\<close>

definition normalize :: "pystr \<Rightarrow> pystr" where
  "normalize file_content = replace1 8212 [45, 45] (collapse_blank file_content)"

definition parse_file_content :: "'a libs_scheme \<Rightarrow> pystr \<Rightarrow> subtitle \<Rightarrow> error + subtitle" where
  "parse_file_content L file_content s =
     breakup_block L (split_on NL (normalize file_content)) s"

text \<open>\<open>__bool__\<close>: some block of the sequence has content.\<close>

fun any_content :: "sub_block list \<Rightarrow> ref list \<Rightarrow> bool" where
  "any_content h [] = False"
| "any_content h (r # rs) = (if content (h ! r) \<noteq> [] then True else any_content h rs)"

definition subtitle_bool :: "subtitle \<Rightarrow> bool" where
  "subtitle_bool s = any_content (heap s) (blocks s)"

text \<open>The loop \<open>for block in self.blocks: sub_content += block.content\<close>.\<close>

fun sub_content :: "sub_block list \<Rightarrow> ref list \<Rightarrow> pystr" where
  "sub_content h [] = []"
| "sub_content h (r # rs) = content (h ! r) @ sub_content h rs"

text \<open>
  \<open>mark_blocks_for_deletion\<close>. \<open>self.blocks[index-1]\<close> is Python indexing: a negative
  index counts from the end, and an index below \<open>-len\<close> raises \<open>IndexError\<close>, which
  ends the loop with the earlier positions already marked.
\<close>

fun mark_blocks_for_deletion :: "int list \<Rightarrow> subtitle \<Rightarrow> (error + unit) \<times> subtitle" where
  "mark_blocks_for_deletion [] s = (Inr (), s)"
| "mark_blocks_for_deletion (index # purge_list) s =
     (let n = int (length (blocks s)) in
      if index - 1 \<ge> n then mark_blocks_for_deletion purge_list s
      else if index - 1 < - n then (Inl IndexError, s)
      else
        (let r = blocks s ! nat (if index - 1 < 0 then n + (index - 1) else index - 1) in
         mark_blocks_for_deletion purge_list
           (s\<lparr>heap := (heap s)[r := (heap s ! r)\<lparr>regex_matches := 3\<rparr>]\<rparr>)))"

text \<open>
  \<open>language_is_correct\<close>. It assigns to nothing, so the document comes back as it was.
  \<open>detect_langs(sub_content)[0]\<close> raises what the detector raises, or \<open>IndexError\<close> on
  an empty list.
\<close>

definition language_is_correct :: "'a libs_scheme \<Rightarrow> subtitle \<Rightarrow> (error + bool) \<times> subtitle" where
  "language_is_correct L s =
     (if language s = und then (Inr True, s)
      else
        (let language_code_2 = get_2letter_code L (language s) in
         if \<not> truthy language_code_2 then (Inr True, s)
         else if length (sub_content (heap s) (blocks s)) < 500 then (Inr True, s)
         else
           (case detect_langs L (sub_content (heap s) (blocks s)) of
              None \<Rightarrow> (Inl LangDetectException, s)
            | Some [] \<Rightarrow> (Inl IndexError, s)
            | Some (detected_language # _) \<Rightarrow>
                (Inr (Some (lang detected_language) = language_code_2
                      \<and> prob detected_language > float_0_8), s))))"

text \<open>
  \<open>determine_language\<close>. \<open>parse_suffix\<close> is the expression
  \<open>suffix.replace(":", "-").replace("_", "-").split("-")[0][1:]\<close>, and
  \<open>first_language\<close> the loop over the suffixes with its early return.
\<close>

definition parse_suffix :: "pystr \<Rightarrow> pystr" where
  "parse_suffix suffix =
     drop 1 (hd (split_on 45 (replace1 95 [45] (replace1 58 [45] suffix))))"

fun first_language :: "(pystr \<Rightarrow> bool) \<Rightarrow> pystr list \<Rightarrow> pystr option" where
  "first_language is_lang [] = None"
| "first_language is_lang (suffix # rest) =
     (let parsed_lang = parse_suffix suffix in
      if is_lang parsed_lang then Some parsed_lang else first_language is_lang rest)"

definition determine_language ::
  "'a libs_scheme \<Rightarrow> 'b settings_scheme \<Rightarrow> subtitle \<Rightarrow> (error + unit) \<times> subtitle" where
  "determine_language L A s =
     (if truthy (config_default_language A)
      then (Inr (), s\<lparr>language := the (config_default_language A)\<rparr>)
      else
        (let s1 = s\<lparr>language := und\<rparr> in
         case first_language (is_language L) (slice_m3_m1 (suffixes (sub_file s))) of
           Some parsed_lang \<Rightarrow> (Inr (), s1\<lparr>language := parsed_lang\<rparr>)
         | None \<Rightarrow>
             if length (sub_content (heap s1) (blocks s1)) < 500 then (Inr (), s1)
             else
               (case detect_langs L (sub_content (heap s1) (blocks s1)) of
                  None \<Rightarrow> (Inl LangDetectException, s1)
                | Some [] \<Rightarrow> (Inl IndexError, s1)
                | Some (detected_language # _) \<Rightarrow>
                    if prob detected_language > float_0_9
                    then (Inr (), s1\<lparr>language := lang detected_language\<rparr>)
                    else (Inr (), s1))))"

text \<open>\<open>reindex\<close>: the loop with its counter, writing through each reference.\<close>

fun reindex_loop :: "ref list \<Rightarrow> int \<Rightarrow> sub_block list \<Rightarrow> sub_block list" where
  "reindex_loop [] index h = h"
| "reindex_loop (r # rs) index h =
     reindex_loop rs (index + 1) (h[r := (h ! r)\<lparr>current_index := index\<rparr>])"

definition reindex :: "subtitle \<Rightarrow> subtitle" where
  "reindex s = s\<lparr>heap := reindex_loop (blocks s) 1 (heap s)\<rparr>"

text \<open>\<open>to_content\<close>: it assigns to nothing; \<open>content[:-1]\<close> drops the last character.\<close>

fun to_content_loop :: "'a libs_scheme \<Rightarrow> sub_block list \<Rightarrow> ref list \<Rightarrow> pystr" where
  "to_content_loop L h [] = []"
| "to_content_loop L h (r # rs) =
     (str_int (current_index (h ! r)) @ [NL] @ block_str L (h ! r) @ [NL] @ [NL])
       @ to_content_loop L h rs"

definition to_content :: "'a libs_scheme \<Rightarrow> subtitle \<Rightarrow> pystr \<times> subtitle" where
  "to_content L s = (butlast (to_content_loop L (heap s) (blocks s)), s)"

text \<open>\<open>read_file\<close>: UTF-8 first, Windows-1252 when that fails to decode.\<close>

definition read_file :: "'a libs_scheme \<Rightarrow> path \<Rightarrow> error + pystr" where
  "read_file L f =
     (case open_read L f UTF8 of
        Inl UnicodeDecodeError \<Rightarrow> open_read L f CP1252
      | r \<Rightarrow> r)"

text \<open>
  \<open>Subtitle.__init__\<close>. A failed construction leaves no document, so the result is the
  error or the constructed document. The log message is not modelled.
\<close>

definition new_subtitle :: "path \<Rightarrow> subtitle" where
  "new_subtitle f =
     \<lparr>sub_file = f, short_path = f, heap = [], blocks = [],
      ad_blocks = {}, warning_blocks = {}, language = []\<rparr>"

text \<open>The statement \<open>if args.language: ... else: self.determine_language()\<close> of the constructor.\<close>

definition set_language :: "'a libs_scheme \<Rightarrow> 'b settings_scheme \<Rightarrow> subtitle \<Rightarrow> (error + unit) \<times> subtitle" where
  "set_language L A s =
     (if truthy (args_language A)
      then (Inr (), s\<lparr>language := the (args_language A)\<rparr>)
      else determine_language L A s)"

definition subtitle_init :: "'a libs_scheme \<Rightarrow> 'b settings_scheme \<Rightarrow> path \<Rightarrow> error + subtitle" where
  "subtitle_init L A f =
     (case read_file L f of
        Inl e \<Rightarrow> Inl e
      | Inr file_content \<Rightarrow>
     (case parse_file_content L file_content (new_subtitle f) of
        Inl e \<Rightarrow>
          Inl (case e of ParsingException _ \<Rightarrow> ParsingException (Some f) | _ \<Rightarrow> e)
      | Inr s1 \<Rightarrow>
     (let s2 = s1\<lparr>short_path :=
                  (case relative_to L (sub_file s1) (config_relative_base A) of
                     Some p \<Rightarrow> p | None \<Rightarrow> sub_file s1)\<rparr> in
      if \<not> subtitle_bool s2 then Inl (SubtitleContentException (sub_file s2))
      else
     (case set_language L A s2 of
        (Inl e, _) \<Rightarrow> Inl e
      | (Inr _, s3) \<Rightarrow>
     (case language_is_correct L s3 of
        (Inl e, _) \<Rightarrow> Inl e
      | (Inr _, s4) \<Rightarrow>
          if truthy (args_destroy_list A)
          then (case mark_blocks_for_deletion (the (args_destroy_list A)) s4 of
                  (Inl e, _) \<Rightarrow> Inl e
                | (Inr _, s5) \<Rightarrow> Inr s5)
          else Inr s4)))))"

text \<open>
  Calls on a constructed document, and the document after a sequence of them. A call
  that raises leaves the document as the method left it.
\<close>

datatype call =
    Warn ref
  | Ad ref
  | MarkForDeletion "int list"
  | Reindex
  | Render

fun step :: "'a libs_scheme \<Rightarrow> subtitle \<Rightarrow> call \<Rightarrow> subtitle" where
  "step L s (Warn b) = warn b s"
| "step L s (Ad b) = ad b s"
| "step L s (MarkForDeletion purge_list) = snd (mark_blocks_for_deletion purge_list s)"
| "step L s Reindex = reindex s"
| "step L s Render = snd (to_content L s)"

definition run :: "'a libs_scheme \<Rightarrow> subtitle \<Rightarrow> call list \<Rightarrow> subtitle" where
  "run L s calls = foldl (step L) s calls"

section \<open>The specification's reading of the suffix token\<close>

text \<open>
  The specification describes the token taken from a filename suffix in its own order:
  strip the leading separator, turn \<open>:\<close> and \<open>_\<close> into \<open>-\<close>, keep what precedes the
  first hyphen. \<open>spec_token\<close> follows those words; \<open>parse_suffix\<close> is the code.
\<close>

definition spec_token :: "pystr \<Rightarrow> pystr" where
  "spec_token suffix =
     takeWhile (\<lambda>c. c \<noteq> 45)
       (map (\<lambda>c. if c = 58 \<or> c = 95 then 45 else c) (drop 1 suffix))"

section \<open>Cue files\<close>

text \<open>
  The input format of the specification: a cue is a sequence-number line, a time line
  holding the arrow, and text lines. The text of a cue does not itself hold the start of
  a cue: no line with the arrow comes right after a numeric line (\<open>no_boundary\<close>, over
  the time line and the text lines). A cue file is the lines of its cues one after the
  other, with nothing behind the last cue.
\<close>

record cue =
  cue_number :: pystr
  cue_timing :: pystr
  cue_text :: "pystr list"

definition cue_lines :: "cue \<Rightarrow> pystr list" where
  "cue_lines c = cue_number c # cue_timing c # cue_text c"

fun no_boundary :: "(nat \<Rightarrow> bool) \<Rightarrow> pystr list \<Rightarrow> bool" where
  "no_boundary num [] = True"
| "no_boundary num [a] = True"
| "no_boundary num (a # b # ls) =
     (\<not> (isnumeric num a \<and> contains b arrow) \<and> no_boundary num (b # ls))"

definition cue_ok :: "(nat \<Rightarrow> bool) \<Rightarrow> cue \<Rightarrow> bool" where
  "cue_ok num c =
     (isnumeric num (cue_number c) \<and> contains (cue_timing c) arrow
      \<and> no_boundary num (cue_timing c # cue_text c))"

section \<open>A small environment for concrete runs\<close>

text \<open>
  Stand-ins for the collaborators, used only to run the model on concrete files: a
  block constructor that takes the text after the number and time lines as content, a
  registry that knows \<open>en\<close>, a detector that always answers \<open>fr\<close> with probability
  \<open>0.95\<close>, and three files.
\<close>

definition demo_SubBlock :: "pystr \<Rightarrow> sub_block option" where
  "demo_SubBlock txt =
     (case split_on NL txt of
        idx # time # text \<Rightarrow>
          if contains time arrow
          then Some \<lparr>content = join_nl text, current_index = 0, regex_matches = 0\<rparr>
          else None
      | _ \<Rightarrow> None)"

definition two_cues :: pystr where
  "two_cues = ustr (''1'' @ [CHR 0x0A] @ ''0 --> 1'' @ [CHR 0x0A] @ ''Hi'' @ [CHR 0x0A]
     @ ''2'' @ [CHR 0x0A] @ ''2 --> 3'' @ [CHR 0x0A] @ ''Yo'' @ [CHR 0x0A])"

definition four_cues :: pystr where
  "four_cues = ustr (''1'' @ [CHR 0x0A] @ ''-->'' @ [CHR 0x0A] @ ''a'' @ [CHR 0x0A]
     @ ''2'' @ [CHR 0x0A] @ ''-->'' @ [CHR 0x0A] @ ''b'' @ [CHR 0x0A]
     @ ''3'' @ [CHR 0x0A] @ ''-->'' @ [CHR 0x0A] @ ''c'' @ [CHR 0x0A]
     @ ''4'' @ [CHR 0x0A] @ ''-->'' @ [CHR 0x0A] @ ''d'')"

definition two_lines :: pystr where
  "two_lines = ustr (''Hello'' @ [CHR 0x0A] @ ''world'')"

definition demo_libs :: libs where
  "demo_libs =
     \<lparr>SubBlock = demo_SubBlock,
      block_str = content,
      is_language = (\<lambda>t. t = [101, 110]),
      get_2letter_code = (\<lambda>t. if t = [101, 110] then Some [101, 110] else None),
      detect_langs = (\<lambda>t. Some [\<lparr>lang = [102, 114], prob = 95 / 100\<rparr>]),
      relative_to = (\<lambda>p base. None),
      open_read = (\<lambda>p enc. if p = [ustr ''m.en.srt''] then Inr two_cues
                             else if p = [ustr ''four.srt''] then Inr four_cues
                             else if p = [ustr ''s.srt''] then Inr two_lines
                             else Inl OSError),
      numeric = (\<lambda>c. 48 \<le> c \<and> c \<le> 57)\<rparr>"

definition demo_settings :: settings where
  "demo_settings =
     \<lparr>args_language = None, args_destroy_list = None,
      config_default_language = None, config_relative_base = []\<rparr>"

definition demo_doc :: subtitle where
  "demo_doc =
     \<lparr>sub_file = [ustr ''m.en.srt''], short_path = [ustr ''m.en.srt''],
      heap = [\<lparr>content = ustr ''Hi'', current_index = 0, regex_matches = 0\<rparr>],
      blocks = [0], ad_blocks = {}, warning_blocks = {}, language = ustr ''en''\<rparr>"

definition demo_doc3 :: subtitle where
  "demo_doc3 =
     \<lparr>sub_file = [ustr ''four.srt''], short_path = [ustr ''four.srt''],
      heap = [\<lparr>content = ustr ''a'', current_index = 0, regex_matches = 0\<rparr>,
              \<lparr>content = ustr ''b'', current_index = 0, regex_matches = 0\<rparr>,
              \<lparr>content = ustr ''c'', current_index = 0, regex_matches = 0\<rparr>],
      blocks = [0, 1, 2], ad_blocks = {}, warning_blocks = {}, language = und\<rparr>"

definition demo_long_doc :: subtitle where
  "demo_long_doc =
     demo_doc\<lparr>heap := [\<lparr>content = replicate 500 97, current_index = 0, regex_matches = 0\<rparr>]\<rparr>"

definition demo_cues :: "cue list" where
  "demo_cues =
     [\<lparr>cue_number = ustr ''1'', cue_timing = ustr ''0 --> 1'', cue_text = [ustr ''Hi'']\<rparr>,
      \<lparr>cue_number = ustr ''2'', cue_timing = ustr ''2 --> 3'', cue_text = [ustr ''Yo'', []]\<rparr>]"

section \<open>Properties\<close>

subsection \<open>Unfolding the segmentation loop\<close>

lemma breakup_loop_done:
  "\<not> i < length raw \<Longrightarrow> breakup_loop L raw i lb s = Inr s"
  by (subst breakup_loop.simps) auto

lemma breakup_loop_skip:
  "i < length raw \<Longrightarrow> \<not> (contains (raw ! i) arrow \<and> isnumeric (numeric L) (raw ! (i - 1))) \<Longrightarrow>
   breakup_loop L raw i lb s = breakup_loop L raw (i + 1) lb s"
  by (subst breakup_loop.simps) auto

lemma breakup_loop_raise:
  "i < length raw \<Longrightarrow> contains (raw ! i) arrow \<Longrightarrow> isnumeric (numeric L) (raw ! (i - 1)) \<Longrightarrow>
   SubBlock L (join_nl (slice raw lb (i - 1))) = None \<Longrightarrow>
   breakup_loop L raw i lb s = Inl (ParsingException None)"
  by (subst breakup_loop.simps) auto

lemma breakup_loop_emit:
  "i < length raw \<Longrightarrow> contains (raw ! i) arrow \<Longrightarrow> isnumeric (numeric L) (raw ! (i - 1)) \<Longrightarrow>
   SubBlock L (join_nl (slice raw lb (i - 1))) = Some b \<Longrightarrow>
   breakup_loop L raw i lb s =
     breakup_loop L raw (i + 1) (i - 1)
       (if content b \<noteq> []
        then s\<lparr>heap := heap s @ [b], blocks := blocks s @ [length (heap s)]\<rparr>
        else s\<lparr>heap := heap s @ [b]\<rparr>)"
  by (subst breakup_loop.simps) auto

subsection \<open>What each method leaves alone\<close>

lemma breakup_loop_frame:
  "breakup_loop L raw i lb s = Inr s' \<Longrightarrow>
     ad_blocks s' = ad_blocks s \<and> warning_blocks s' = warning_blocks s
     \<and> sub_file s' = sub_file s \<and> short_path s' = short_path s \<and> language s' = language s"
proof (induction L raw i lb s rule: breakup_loop.induct)
  case (1 L raw i lb s)
  show ?case
  proof (cases "i < length raw")
    case False
    with "1.prems" show ?thesis by (simp add: breakup_loop_done)
  next
    case True
    note lt = this
    show ?thesis
    proof (cases "contains (raw ! i) arrow \<and> isnumeric (numeric L) (raw ! (i - 1))")
      case False
      with lt "1.prems" "1.IH"(2) show ?thesis by (simp add: breakup_loop_skip)
    next
      case True
      note bd = this
      show ?thesis
      proof (cases "SubBlock L (join_nl (slice raw lb (i - 1)))")
        case None
        with lt bd "1.prems" show ?thesis by (simp add: breakup_loop_raise)
      next
        case (Some b)
        from lt bd Some "1.prems" have
          "breakup_loop L raw (i + 1) (i - 1)
            (if content b \<noteq> []
             then s\<lparr>heap := heap s @ [b], blocks := blocks s @ [length (heap s)]\<rparr>
             else s\<lparr>heap := heap s @ [b]\<rparr>) = Inr s'"
          by (simp add: breakup_loop_emit)
        from "1.IH"(1)[OF lt bd Some this] show ?thesis
          by (simp split: if_splits)
      qed
    qed
  qed
qed

lemma mark_frame:
  "blocks (snd (mark_blocks_for_deletion l s)) = blocks s
   \<and> ad_blocks (snd (mark_blocks_for_deletion l s)) = ad_blocks s
   \<and> warning_blocks (snd (mark_blocks_for_deletion l s)) = warning_blocks s
   \<and> language (snd (mark_blocks_for_deletion l s)) = language s
   \<and> length (heap (snd (mark_blocks_for_deletion l s))) = length (heap s)"
  by (induction l arbitrary: s) (simp_all add: Let_def)

lemma language_is_correct_same: "snd (language_is_correct L s) = s"
  by (simp add: language_is_correct_def Let_def split: option.splits list.splits)

lemma determine_language_frame:
  "blocks (snd (determine_language L A s)) = blocks s
   \<and> ad_blocks (snd (determine_language L A s)) = ad_blocks s
   \<and> warning_blocks (snd (determine_language L A s)) = warning_blocks s
   \<and> heap (snd (determine_language L A s)) = heap s"
  by (simp add: determine_language_def Let_def split: option.splits list.splits)

lemma set_language_frame:
  "blocks (snd (set_language L A s)) = blocks s
   \<and> ad_blocks (snd (set_language L A s)) = ad_blocks s
   \<and> warning_blocks (snd (set_language L A s)) = warning_blocks s
   \<and> heap (snd (set_language L A s)) = heap s"
  by (simp add: set_language_def determine_language_frame)

lemma any_content_iff: "any_content h rs = (\<exists>r\<in>set rs. content (h ! r) \<noteq> [])"
  by (induction rs) auto

subsection \<open>Errors of the constructor\<close>

lemma mark_no_content_error:
  "fst (mark_blocks_for_deletion l s) \<noteq> Inl (SubtitleContentException p)"
  by (induction l arbitrary: s) (simp_all add: Let_def)

lemma language_is_correct_no_content_error:
  "fst (language_is_correct L s) \<noteq> Inl (SubtitleContentException p)"
  by (simp add: language_is_correct_def Let_def split: option.splits list.splits)

lemma set_language_no_content_error:
  "fst (set_language L A s) \<noteq> Inl (SubtitleContentException p)"
  by (simp add: set_language_def determine_language_def Let_def split: option.splits list.splits)

lemma no_content_error_later:
  "set_language L A s \<noteq> (Inl (SubtitleContentException p), s')"
  "language_is_correct L s \<noteq> (Inl (SubtitleContentException p), s')"
  "mark_blocks_for_deletion l s \<noteq> (Inl (SubtitleContentException p), s')"
  using set_language_no_content_error[of L A s p]
    language_is_correct_no_content_error[of L s p]
    mark_no_content_error[of l s p]
  by auto

lemma init_after_parse:
  assumes "read_file L f = Inr c" and "parse_file_content L c (new_subtitle f) = Inr s1"
  shows "sub_file s1 = f" and "ad_blocks s1 = {}" and "warning_blocks s1 = {}"
  using assms breakup_loop_frame[of L "split_on NL (normalize c)" 2 0 "new_subtitle f" s1]
  by (simp_all add: parse_file_content_def breakup_block_def new_subtitle_def)

lemma init_Inr:
  assumes "subtitle_init L A f = Inr s"
  obtains c s1 s3 where
    "read_file L f = Inr c"
    and "parse_file_content L c (new_subtitle f) = Inr s1"
    and "any_content (heap s1) (blocks s1)"
    and "s3 = snd (set_language L A (s1\<lparr>short_path :=
            (case relative_to L (sub_file s1) (config_relative_base A) of
               Some p \<Rightarrow> p | None \<Rightarrow> sub_file s1)\<rparr>))"
    and "s = s3 \<or> s = snd (mark_blocks_for_deletion (the (args_destroy_list A)) s3)"
proof -
  from assms obtain c where c: "read_file L f = Inr c"
    by (auto simp add: subtitle_init_def split: sum.splits)
  with assms obtain s1 where s1: "parse_file_content L c (new_subtitle f) = Inr s1"
    by (auto simp add: subtitle_init_def split: sum.splits)
  define s2 where "s2 = s1\<lparr>short_path :=
      (case relative_to L (sub_file s1) (config_relative_base A) of
         Some p \<Rightarrow> p | None \<Rightarrow> sub_file s1)\<rparr>"
  from assms c s1 have nonempty: "any_content (heap s1) (blocks s1)"
    by (auto simp add: subtitle_init_def subtitle_bool_def Let_def split: if_splits)
  obtain r3 s3 where s3: "set_language L A s2 = (r3, s3)" by (cases "set_language L A s2")
  obtain r5 s5 where s5: "mark_blocks_for_deletion (the (args_destroy_list A)) s3 = (r5, s5)"
    by (cases "mark_blocks_for_deletion (the (args_destroy_list A)) s3")
  have l: "language_is_correct L s3 = (fst (language_is_correct L s3), s3)"
    using language_is_correct_same[of L s3] by (metis prod.collapse)
  from assms c s1 s3 s5 have "s = s3 \<or> s = s5"
    apply (simp add: subtitle_init_def Let_def s2_def[symmetric] split: if_splits sum.splits)
    apply (subst (asm) l)
    apply (auto split: if_splits sum.splits)
    done
  with s3 s5 have "s = snd (set_language L A s2)
      \<or> s = snd (mark_blocks_for_deletion (the (args_destroy_list A)) (snd (set_language L A s2)))"
    by auto
  with that[OF c s1 nonempty, of "snd (set_language L A s2)"] show thesis
    by (simp add: s2_def)
qed

lemma init_frame:
  assumes "subtitle_init L A f = Inr s"
  shows "ad_blocks s = {}" and "warning_blocks s = {}"
proof -
  from assms obtain c s1 s3 where
    c: "read_file L f = Inr c"
    and s1: "parse_file_content L c (new_subtitle f) = Inr s1"
    and s3: "s3 = snd (set_language L A (s1\<lparr>short_path :=
            (case relative_to L (sub_file s1) (config_relative_base A) of
               Some p \<Rightarrow> p | None \<Rightarrow> sub_file s1)\<rparr>))"
    and s: "s = s3 \<or> s = snd (mark_blocks_for_deletion (the (args_destroy_list A)) s3)"
    by (rule init_Inr)
  note e = init_after_parse[OF c s1]
  from s3 e have f3: "ad_blocks s3 = {}" "warning_blocks s3 = {}"
    by (simp_all add: set_language_frame)
  with s show "ad_blocks s = {}" and "warning_blocks s = {}"
    by (auto simp add: mark_frame)
qed

lemma step_disjoint:
  "ad_blocks s \<inter> warning_blocks s = {} \<Longrightarrow>
   ad_blocks (step L s c) \<inter> warning_blocks (step L s c) = {}"
  by (cases c) (auto simp add: warn_def ad_def mark_frame reindex_def to_content_def)

lemma run_disjoint:
  "ad_blocks s \<inter> warning_blocks s = {} \<Longrightarrow>
   ad_blocks (run L s calls) \<inter> warning_blocks (run L s calls) = {}"
  unfolding run_def
  by (induction calls arbitrary: s) (simp_all add: step_disjoint)

subsection \<open>Suffix tokens\<close>

lemma split_on_not_Nil: "split_on sep s \<noteq> []"
  by (induction s) (simp_all split: list.splits)

lemma hd_split_on: "hd (split_on sep s) = takeWhile (\<lambda>c. c \<noteq> sep) s"
  by (induction s) (auto simp add: split_on_not_Nil split: list.splits)

lemma replace_colon_underscore:
  "replace1 95 [45] (replace1 58 [45] s) = map (\<lambda>c. if c = 58 \<or> c = 95 then 45 else c) s"
  by (induction s) (simp_all add: replace1_def)

lemma parse_suffix_spec: "parse_suffix (46 # y) = spec_token (46 # y)"
  by (simp add: parse_suffix_def spec_token_def replace_colon_underscore hd_split_on
      del: split_on.simps)

lemma suffixes_dot: "x \<in> set (suffixes p) \<Longrightarrow> \<exists>y. x = 46 # y"
  by (auto simp add: suffixes_def Let_def split: if_splits)

lemma first_language_find:
  "(\<forall>x\<in>set xs. \<exists>y. x = 46 # y) \<Longrightarrow>
   first_language P xs = find P (map spec_token xs)"
  by (induction xs) (auto simp add: Let_def parse_suffix_spec)

lemma slice_m3_m1_butlast:
  "slice_m3_m1 xs = drop (length (butlast xs) - 2) (butlast xs)"
proof -
  have "length xs - 3 = length xs - 1 - 2" by simp
  then show ?thesis by (simp add: slice_m3_m1_def butlast_conv_take)
qed

lemma set_slice_m3_m1: "set (slice_m3_m1 xs) \<subseteq> set xs"
  unfolding slice_m3_m1_def by (meson set_drop_subset set_take_subset subset_trans)

lemma slice_dots: "x \<in> set (slice_m3_m1 (suffixes p)) \<Longrightarrow> \<exists>y. x = 46 # y"
  by (rule suffixes_dot[of x p]) (rule subsetD[OF set_slice_m3_m1])

lemma first_language_spec:
  "first_language P (slice_m3_m1 (suffixes p))
     = find P (map spec_token (slice_m3_m1 (suffixes p)))"
  by (rule first_language_find) (simp add: slice_dots)

lemma movie_name: "ustr ''movie.en.srt'' = [109,111,118,105,101,46,101,110,46,115,114,116]"
  by (simp add: ustr_def)

lemma movie_split:
  "split_on 46 [109,111,118,105,101,46,101,110,46,115,114,116]
     = [[109,111,118,105,101],[101,110],[115,114,116]]"
  by simp

lemma movie_suffixes:
  "path_name p = ustr ''movie.en.srt'' \<Longrightarrow> slice_m3_m1 (suffixes p) = [[46,101,110]]"
  by (simp add: suffixes_def movie_name movie_split slice_m3_m1_def del: split_on.simps)

lemma parse_dot_en: "parse_suffix [46,101,110] = [101,110]"
  by (simp add: parse_suffix_def replace1_def)

lemma en_name: "ustr ''en'' = [101,110]"
  by (simp add: ustr_def)

lemma determine_by_suffix:
  assumes "\<not> truthy (config_default_language A)"
    and "first_language (is_language L) (slice_m3_m1 (suffixes (sub_file s))) = Some t"
  shows "determine_language L A s = (Inr (), s\<lparr>language := t\<rparr>)"
  using assms by (simp add: determine_language_def)

lemma sub_content_concat: "sub_content h rs = concat (map (\<lambda>r. content (h ! r)) rs)"
  by (induction rs) simp_all

subsection \<open>Concrete runs\<close>

lemma demo_paths:
  "ustr ''m.en.srt'' = [109,46,101,110,46,115,114,116]"
  "ustr ''four.srt'' = [102,111,117,114,46,115,114,116]"
  "ustr ''s.srt'' = [115,46,115,114,116]"
  by (simp_all add: ustr_def)

lemma demo_read:
  "read_file demo_libs [ustr ''m.en.srt''] = Inr two_cues"
  "read_file demo_libs [ustr ''four.srt''] = Inr four_cues"
  "read_file demo_libs [ustr ''s.srt''] = Inr two_lines"
  by (simp_all add: read_file_def demo_libs_def demo_paths)

lemma two_cues_lines:
  "split_on NL (normalize two_cues)
     = [[49],[48,32,45,45,62,32,49],[72,105],[50],[50,32,45,45,62,32,51],[89,111],[]]"
  by (simp add: two_cues_def ustr_def normalize_def NL_def isspace_def last_nl_def replace1_def)

lemma four_cues_lines:
  "split_on NL (normalize four_cues)
     = [[49],[45,45,62],[97],[50],[45,45,62],[98],[51],[45,45,62],[99],[52],[45,45,62],[100]]"
  by (simp add: four_cues_def ustr_def normalize_def NL_def isspace_def last_nl_def replace1_def)

lemma two_lines_lines:
  "split_on NL (normalize two_lines) = [[72,101,108,108,111],[119,111,114,108,100]]"
  by (simp add: two_lines_def ustr_def normalize_def NL_def isspace_def last_nl_def replace1_def)

lemma demo_blocks:
  "demo_SubBlock [49, NL, 48, 32, 45, 45, 62, 32, 49, NL, 72, 105]
     = Some \<lparr>content = [72,105], current_index = 0, regex_matches = 0\<rparr>"
  "demo_SubBlock [49, NL, 45, 45, 62, NL, 97]
     = Some \<lparr>content = [97], current_index = 0, regex_matches = 0\<rparr>"
  "demo_SubBlock [50, NL, 45, 45, 62, NL, 98]
     = Some \<lparr>content = [98], current_index = 0, regex_matches = 0\<rparr>"
  "demo_SubBlock [51, NL, 45, 45, 62, NL, 99]
     = Some \<lparr>content = [99], current_index = 0, regex_matches = 0\<rparr>"
  by (simp_all add: demo_SubBlock_def NL_def arrow_def)

lemma demo_parse_two:
  "parse_file_content demo_libs two_cues (new_subtitle f)
     = Inr ((new_subtitle f)
         \<lparr>heap := [\<lparr>content = [72,105], current_index = 0, regex_matches = 0\<rparr>],
          blocks := [0]\<rparr>)"
  by (simp add: parse_file_content_def two_cues_lines breakup_block_def breakup_loop.simps
      demo_libs_def arrow_def isnumeric_def slice_def demo_blocks new_subtitle_def)

lemma demo_parse_four:
  "parse_file_content demo_libs four_cues (new_subtitle f)
     = Inr ((new_subtitle f)
         \<lparr>heap := [\<lparr>content = [97], current_index = 0, regex_matches = 0\<rparr>,
                   \<lparr>content = [98], current_index = 0, regex_matches = 0\<rparr>,
                   \<lparr>content = [99], current_index = 0, regex_matches = 0\<rparr>],
          blocks := [0, 1, 2]\<rparr>)"
  by (simp add: parse_file_content_def four_cues_lines breakup_block_def breakup_loop.simps
      demo_libs_def arrow_def isnumeric_def slice_def demo_blocks new_subtitle_def)

lemma demo_suffixes:
  "slice_m3_m1 (suffixes [[109,46,101,110,46,115,114,116]]) = [[46,101,110]]"
  "slice_m3_m1 (suffixes [[102,111,117,114,46,115,114,116]]) = []"
  by (simp_all add: suffixes_def path_name_def slice_m3_m1_def)

lemma demo_init_two:
  "subtitle_init demo_libs demo_settings [ustr ''m.en.srt''] = Inr demo_doc"
  by (simp add: subtitle_init_def demo_read demo_parse_two)
     (simp add: demo_libs_def demo_settings_def new_subtitle_def subtitle_bool_def
        set_language_def determine_language_def truthy_def demo_suffixes demo_paths
        parse_dot_en language_is_correct_def und_def demo_doc_def ustr_def)

lemma demo_init_four:
  "subtitle_init demo_libs demo_settings [ustr ''four.srt''] = Inr demo_doc3"
  by (simp add: subtitle_init_def demo_read demo_parse_four)
     (simp add: demo_libs_def demo_settings_def new_subtitle_def subtitle_bool_def
        set_language_def determine_language_def truthy_def demo_suffixes demo_paths
        language_is_correct_def und_def demo_doc3_def ustr_def)

subsection \<open>References of a document\<close>

lemma breakup_loop_refs:
  "breakup_loop L raw i lb s = Inr s' \<Longrightarrow>
   distinct (blocks s) \<Longrightarrow> list_all (\<lambda>r. r < length (heap s)) (blocks s) \<Longrightarrow>
   distinct (blocks s') \<and> list_all (\<lambda>r. r < length (heap s')) (blocks s')"
proof (induction L raw i lb s rule: breakup_loop.induct)
  case (1 L raw i lb s)
  show ?case
  proof (cases "i < length raw")
    case False
    with "1.prems" show ?thesis by (simp add: breakup_loop_done)
  next
    case True
    note lt = this
    show ?thesis
    proof (cases "contains (raw ! i) arrow \<and> isnumeric (numeric L) (raw ! (i - 1))")
      case False
      with lt "1.prems" "1.IH"(2) show ?thesis by (simp add: breakup_loop_skip)
    next
      case True
      note bd = this
      show ?thesis
      proof (cases "SubBlock L (join_nl (slice raw lb (i - 1)))")
        case None
        with lt bd "1.prems" show ?thesis by (simp add: breakup_loop_raise)
      next
        case (Some b)
        let ?s1 = "if content b \<noteq> []
             then s\<lparr>heap := heap s @ [b], blocks := blocks s @ [length (heap s)]\<rparr>
             else s\<lparr>heap := heap s @ [b]\<rparr>"
        from lt bd Some "1.prems" have run: "breakup_loop L raw (i + 1) (i - 1) ?s1 = Inr s'"
          by (simp add: breakup_loop_emit)
        from "1.prems"(3) have below: "\<forall>r\<in>set (blocks s). r < length (heap s)"
          by (simp add: list_all_iff)
        then have fresh: "length (heap s) \<notin> set (blocks s)" by auto
        from "1.prems"(2) fresh have d: "distinct (blocks ?s1)" by simp
        from below have "\<forall>r\<in>set (blocks ?s1). r < length (heap ?s1)" by auto
        then have b: "list_all (\<lambda>r. r < length (heap ?s1)) (blocks ?s1)"
          by (simp only: list_all_iff)
        from "1.IH"(1)[OF lt bd Some run d b] show ?thesis .
      qed
    qed
  qed
qed

lemma reindex_loop_length: "length (reindex_loop rs i h) = length h"
  by (induction rs arbitrary: i h) simp_all

lemma reindex_loop_other: "r \<notin> set rs \<Longrightarrow> reindex_loop rs i h ! r = h ! r"
  by (induction rs arbitrary: i h) auto

lemma reindex_loop_content: "content (reindex_loop rs i h ! r) = content (h ! r)"
proof (induction rs arbitrary: i h)
  case Nil
  show ?case by simp
next
  case (Cons a rs)
  have "content (h[a := (h ! a)\<lparr>current_index := i\<rparr>] ! r) = content (h ! r)"
    by (cases "a < length h"; cases "r = a") (simp_all add: list_update_beyond)
  with Cons show ?case by simp
qed

lemma reindex_loop_index:
  "distinct rs \<Longrightarrow> list_all (\<lambda>r. r < length h) rs \<Longrightarrow>
   map (\<lambda>r. current_index (reindex_loop rs i h ! r)) rs = map (\<lambda>k. i + int k) [0..<length rs]"
proof (induction rs arbitrary: i h)
  case Nil
  show ?case by simp
next
  case (Cons a rs)
  let ?h = "h[a := (h ! a)\<lparr>current_index := i\<rparr>]"
  from Cons.prems have a: "a \<notin> set rs" "a < length h" "distinct rs"
    and b: "list_all (\<lambda>r. r < length ?h) rs" by simp_all
  from a have first: "current_index (reindex_loop rs (i + 1) ?h ! a) = i"
    by (simp add: reindex_loop_other)
  have "map (\<lambda>r. current_index (reindex_loop rs (i + 1) ?h ! r)) rs
          = map (\<lambda>k. i + 1 + int k) [0..<length rs]"
    by (rule Cons.IH[OF a(3) b])
  also have "\<dots> = map (\<lambda>k. i + int k) [1..<Suc (length rs)]"
    by (simp add: map_Suc_upt[symmetric] del: upt_Suc)
  finally have rest: "map (\<lambda>r. current_index (reindex_loop rs (i + 1) ?h ! r)) rs
          = map (\<lambda>k. i + int k) [1..<Suc (length rs)]" .
  have "[0..<length (a # rs)] = 0 # [1..<Suc (length rs)]"
    by (simp add: upt_conv_Cons del: upt_Suc)
  with first rest show ?case by simp
qed

lemma init_refs:
  assumes "subtitle_init L A f = Inr s"
  shows "distinct (blocks s) \<and> list_all (\<lambda>r. r < length (heap s)) (blocks s)"
proof -
  from assms obtain c s1 s3 where
    s1: "parse_file_content L c (new_subtitle f) = Inr s1"
    and s3: "s3 = snd (set_language L A (s1\<lparr>short_path :=
            (case relative_to L (sub_file s1) (config_relative_base A) of
               Some p \<Rightarrow> p | None \<Rightarrow> sub_file s1)\<rparr>))"
    and s: "s = s3 \<or> s = snd (mark_blocks_for_deletion (the (args_destroy_list A)) s3)"
    by (rule init_Inr)
  from s1 have "distinct (blocks s1) \<and> list_all (\<lambda>r. r < length (heap s1)) (blocks s1)"
    unfolding parse_file_content_def breakup_block_def
    by (rule breakup_loop_refs) (simp_all add: new_subtitle_def)
  with s3 have "distinct (blocks s3) \<and> list_all (\<lambda>r. r < length (heap s3)) (blocks s3)"
    by (simp add: set_language_frame)
  with s show ?thesis by (auto simp add: mark_frame)
qed

lemma step_refs:
  "distinct (blocks s) \<and> list_all (\<lambda>r. r < length (heap s)) (blocks s) \<Longrightarrow>
   distinct (blocks (step L s c)) \<and> list_all (\<lambda>r. r < length (heap (step L s c))) (blocks (step L s c))"
  by (cases c) (simp_all add: warn_def ad_def mark_frame reindex_def reindex_loop_length to_content_def)

lemma run_refs:
  "distinct (blocks s) \<and> list_all (\<lambda>r. r < length (heap s)) (blocks s) \<Longrightarrow>
   distinct (blocks (run L s calls)) \<and> list_all (\<lambda>r. r < length (heap (run L s calls))) (blocks (run L s calls))"
  unfolding run_def
proof (induction calls arbitrary: s)
  case Nil
  then show ?case by simp
next
  case (Cons c calls)
  from Cons.IH[OF step_refs[OF Cons.prems, of L c]] show ?case by simp
qed

subsection \<open>Positions of \<open>mark_blocks_for_deletion\<close>\<close>

lemma mark_above_range:
  "list_all (\<lambda>p. int (length (blocks s)) < p) l \<Longrightarrow> mark_blocks_for_deletion l s = (Inr (), s)"
  by (induction l) simp_all

lemma mark_in_range:
  "1 \<le> p \<Longrightarrow> p \<le> int (length (blocks s)) \<Longrightarrow>
   mark_blocks_for_deletion [p] s
     = (Inr (), s\<lparr>heap := (heap s)[blocks s ! nat (p - 1)
                       := (heap s ! (blocks s ! nat (p - 1)))\<lparr>regex_matches := 3\<rparr>]\<rparr>)"
  by (simp add: Let_def)

subsection \<open>Segmentation of a cue file\<close>

lemma startswith_arrow_hyphen: "startswith l arrow \<Longrightarrow> 45 \<in> set l"
  by (cases l) (simp_all add: arrow_def)

lemma contains_arrow_hyphen: "contains l arrow \<Longrightarrow> 45 \<in> set l"
proof (induction l)
  case Nil
  then show ?case by (simp add: arrow_def)
next
  case (Cons c cs)
  from Cons.prems have "startswith (c # cs) arrow \<or> contains cs arrow" by simp
  then show ?case
  proof
    assume "startswith (c # cs) arrow"
    then show ?thesis by (rule startswith_arrow_hyphen)
  next
    assume "contains cs arrow"
    with Cons.IH show ?thesis by simp
  qed
qed

lemma numeric_no_arrow:
  assumes "\<not> num 45" and "isnumeric num l"
  shows "\<not> contains l arrow"
proof
  assume "contains l arrow"
  then have "45 \<in> set l" by (rule contains_arrow_hyphen)
  with assms(2) have "num 45" by (simp add: isnumeric_def list_all_iff)
  with assms(1) show False by simp
qed

lemma breakup_loop_skip_range:
  assumes "\<forall>j. i \<le> j \<and> j < i' \<longrightarrow>
             \<not> (contains (raw ! j) arrow \<and> isnumeric (numeric L) (raw ! (j - 1)))"
    and "i \<le> i'" and "i' \<le> length raw"
  shows "breakup_loop L raw i lb s = breakup_loop L raw i' lb s"
  using assms
proof (induction "i' - i" arbitrary: i)
  case 0
  then show ?case by simp
next
  case (Suc n)
  from Suc.hyps(2) Suc.prems have lt: "i < length raw"
    and no: "\<not> (contains (raw ! i) arrow \<and> isnumeric (numeric L) (raw ! (i - 1)))"
    by auto
  from Suc.hyps(2) have n: "n = i' - (i + 1)" by simp
  from Suc.prems Suc.hyps(2) have
    "breakup_loop L raw (i + 1) lb s = breakup_loop L raw i' lb s"
    by (intro Suc.hyps(1)[OF n]) auto
  with lt no show ?case by (simp add: breakup_loop_skip)
qed

lemma no_boundary_nth:
  "no_boundary num ls \<Longrightarrow> Suc k < length ls \<Longrightarrow>
   \<not> (isnumeric num (ls ! k) \<and> contains (ls ! Suc k) arrow)"
proof (induction num ls arbitrary: k rule: no_boundary.induct)
  case (3 num a b ls)
  show ?case
  proof (cases k)
    case 0
    with "3.prems" show ?thesis by simp
  next
    case (Suc k')
    with "3.prems" "3.IH"[of k'] show ?thesis by simp
  qed
qed simp_all

lemma nth_cue_line:
  "k < length (cue_lines c) \<Longrightarrow>
   (pre @ concat (map cue_lines (c # cs))) ! (length pre + k) = cue_lines c ! k"
  by (simp add: nth_append)

lemma cue_text_no_boundary:
  assumes "cue_ok num c" and "k < length (cue_text c)"
  shows "\<not> (contains ((pre @ concat (map cue_lines (c # cs))) ! (length pre + 2 + k)) arrow
            \<and> isnumeric num ((pre @ concat (map cue_lines (c # cs))) ! (length pre + 2 + k - 1)))"
proof -
  have a: "(pre @ concat (map cue_lines (c # cs))) ! (length pre + 2 + k)
             = (cue_timing c # cue_text c) ! Suc k"
    using nth_cue_line[of "2 + k" c pre cs] assms(2)
    by (simp add: cue_lines_def add.assoc)
  have b: "(pre @ concat (map cue_lines (c # cs))) ! (length pre + 2 + k - 1)
             = (cue_timing c # cue_text c) ! k"
  proof -
    have "length pre + 2 + k - 1 = length pre + (1 + k)" by simp
    with nth_cue_line[of "1 + k" c pre cs] assms(2) show ?thesis
      by (simp add: cue_lines_def)
  qed
  from assms have nb: "\<not> (isnumeric num ((cue_timing c # cue_text c) ! k)
        \<and> contains ((cue_timing c # cue_text c) ! Suc k) arrow)"
    by (intro no_boundary_nth) (simp_all add: cue_ok_def)
  show ?thesis unfolding a b using nb by blast
qed

lemma breakup_cues:
  assumes hyphen: "\<not> numeric L 45"
  shows "list_all (cue_ok (numeric L)) (c # cs) \<Longrightarrow>
    map (\<lambda>c. SubBlock L (join_nl (cue_lines c))) (butlast (c # cs)) = map Some bs \<Longrightarrow>
    list_all (\<lambda>b. content b \<noteq> []) bs \<Longrightarrow>
    breakup_loop L (pre @ concat (map cue_lines (c # cs))) (length pre + 2) (length pre) s
      = Inr (s\<lparr>heap := heap s @ bs,
               blocks := blocks s @ [length (heap s)..<length (heap s) + length bs]\<rparr>)"
proof (induction cs arbitrary: pre c s bs)
  case Nil
  let ?raw = "pre @ concat (map cue_lines [c])"
  from Nil.prems(2) have bs: "bs = []" by simp
  from Nil.prems(1) have ok: "cue_ok (numeric L) c" by simp
  have len: "length ?raw = length pre + 2 + length (cue_text c)"
    by (simp add: cue_lines_def)
  have "\<forall>j. length pre + 2 \<le> j \<and> j < length ?raw \<longrightarrow>
          \<not> (contains (?raw ! j) arrow \<and> isnumeric (numeric L) (?raw ! (j - 1)))"
  proof (intro allI impI)
    fix j assume j: "length pre + 2 \<le> j \<and> j < length ?raw"
    then obtain k where k: "j = length pre + 2 + k" using le_Suc_ex by blast
    with j len have kl: "k < length (cue_text c)" by simp
    from cue_text_no_boundary[OF ok kl, of pre "[]"] k
    show "\<not> (contains (?raw ! j) arrow \<and> isnumeric (numeric L) (?raw ! (j - 1)))" by simp
  qed
  then have "breakup_loop L ?raw (length pre + 2) (length pre) s
      = breakup_loop L ?raw (length ?raw) (length pre) s"
    by (rule breakup_loop_skip_range) (simp_all add: cue_lines_def)
  then show ?case by (simp add: breakup_loop_done bs)
next
  case (Cons c' cs)
  let ?rest = "concat (map cue_lines (c' # cs))"
  let ?raw = "pre @ concat (map cue_lines (c # c' # cs))"
  let ?j = "length pre + 2 + length (cue_text c)"
  have raw: "?raw = (pre @ cue_lines c) @ ?rest" by simp
  have lenc: "length (pre @ cue_lines c) = ?j" by (simp add: cue_lines_def)
  from Cons.prems(1) have ok: "cue_ok (numeric L) c"
    and num': "isnumeric (numeric L) (cue_number c')"
    and tim': "contains (cue_timing c') arrow"
    and oks: "list_all (cue_ok (numeric L)) (c' # cs)"
    by (simp_all add: cue_ok_def list_all_iff)
  from Cons.prems(2) obtain b bs' where bs: "bs = b # bs'"
    and b: "SubBlock L (join_nl (cue_lines c)) = Some b"
    and bs': "map (\<lambda>c. SubBlock L (join_nl (cue_lines c))) (butlast (c' # cs)) = map Some bs'"
    by (cases bs) auto
  from Cons.prems(3) bs have cb: "content b \<noteq> []" and cbs': "list_all (\<lambda>b. content b \<noteq> []) bs'"
    by simp_all
  have at_j: "?raw ! ?j = cue_number c'"
    unfolding raw by (simp add: nth_append lenc) (simp add: cue_lines_def)
  have at_j1: "?raw ! (?j + 1) = cue_timing c'"
    unfolding raw by (simp add: nth_append lenc) (simp add: cue_lines_def)
  have len: "?j + 1 < length ?raw"
    unfolding raw by (simp add: lenc) (simp add: cue_lines_def)
  have skip: "\<forall>j. length pre + 2 \<le> j \<and> j < ?j + 1 \<longrightarrow>
          \<not> (contains (?raw ! j) arrow \<and> isnumeric (numeric L) (?raw ! (j - 1)))"
  proof (intro allI impI)
    fix j assume j: "length pre + 2 \<le> j \<and> j < ?j + 1"
    show "\<not> (contains (?raw ! j) arrow \<and> isnumeric (numeric L) (?raw ! (j - 1)))"
    proof (cases "j = ?j")
      case True
      with at_j numeric_no_arrow[OF hyphen num'] show ?thesis by simp
    next
      case False
      with j have lt: "j < ?j" by simp
      from j obtain k where k: "j = length pre + 2 + k" using le_Suc_ex by blast
      with lt have kl: "k < length (cue_text c)" by simp
      from cue_text_no_boundary[OF ok kl, of pre "c' # cs"] k show ?thesis by simp
    qed
  qed
  from len have "breakup_loop L ?raw (length pre + 2) (length pre) s
      = breakup_loop L ?raw (?j + 1) (length pre) s"
    by (intro breakup_loop_skip_range[OF skip]) simp_all
  also have "slice ?raw (length pre) ?j = cue_lines c"
  proof -
    have "?j = length pre + length (cue_lines c)" by (simp add: cue_lines_def)
    then show ?thesis by (simp add: slice_def)
  qed
  then have "breakup_loop L ?raw (?j + 1) (length pre) s
      = breakup_loop L ?raw (?j + 2) ?j
          (s\<lparr>heap := heap s @ [b], blocks := blocks s @ [length (heap s)]\<rparr>)"
    using len at_j at_j1 tim' num' b cb
    by (subst breakup_loop_emit[where b = b]) simp_all
  also have "\<dots> = Inr ((s\<lparr>heap := heap s @ [b], blocks := blocks s @ [length (heap s)]\<rparr>)
        \<lparr>heap := heap (s\<lparr>heap := heap s @ [b], blocks := blocks s @ [length (heap s)]\<rparr>) @ bs',
         blocks := blocks (s\<lparr>heap := heap s @ [b], blocks := blocks s @ [length (heap s)]\<rparr>)
            @ [length (heap (s\<lparr>heap := heap s @ [b], blocks := blocks s @ [length (heap s)]\<rparr>))
               ..<length (heap (s\<lparr>heap := heap s @ [b], blocks := blocks s @ [length (heap s)]\<rparr>))
                  + length bs']\<rparr>)"
    using Cons.IH[OF oks bs' cbs', of "pre @ cue_lines c"
        "s\<lparr>heap := heap s @ [b], blocks := blocks s @ [length (heap s)]\<rparr>"]
    unfolding raw lenc by simp
  also have "\<dots> = Inr (s\<lparr>heap := heap s @ bs,
               blocks := blocks s @ [length (heap s)..<length (heap s) + length bs]\<rparr>)"
    by (simp add: bs upt_conv_Cons del: upt_Suc)
  finally show ?case .
qed

section \<open>The claims\<close>

text \<open>
  C1. Take a cue file of N cues, N at least 1: each cue a numeric line, a line with the
  arrow, and text lines that hold no cue start of their own. Let the hyphen not be a
  numeric character, and let the block constructor build a block with content from each
  cue but the last. Then \<open>_breakup_block\<close> appends exactly the blocks \<open>bs\<close> built from the
  first N - 1 cues, in order: the document gains N - 1 blocks and none for the last cue.
  On a new document the block sequence is the N - 1 fresh references.
\<close>

theorem breakup_block_drops_last:
  assumes "\<not> numeric L 45"
    and "cues \<noteq> []"
    and "list_all (cue_ok (numeric L)) cues"
    and "map (\<lambda>c. SubBlock L (join_nl (cue_lines c))) (butlast cues) = map Some bs"
    and "list_all (\<lambda>b. content b \<noteq> []) bs"
  shows "breakup_block L (concat (map cue_lines cues)) s
           = Inr (s\<lparr>heap := heap s @ bs,
                    blocks := blocks s @ [length (heap s)..<length (heap s) + length bs]\<rparr>)
    \<and> length bs = length cues - 1
    \<and> breakup_block L (concat (map cue_lines cues)) (new_subtitle f)
           = Inr ((new_subtitle f)\<lparr>heap := bs, blocks := [0..<length cues - 1]\<rparr>)"
proof -
  from assms(2) obtain c cs where cues: "cues = c # cs" by (cases cues) auto
  have run: "breakup_block L (concat (map cue_lines cues)) s
           = Inr (s\<lparr>heap := heap s @ bs,
                    blocks := blocks s @ [length (heap s)..<length (heap s) + length bs]\<rparr>)" for s
    using breakup_cues[OF assms(1) assms(3)[unfolded cues] assms(4)[unfolded cues] assms(5),
        of "[]" s]
    by (simp add: breakup_block_def cues numeral_2_eq_2)
  from assms(4) have "length (butlast cues) = length bs"
    by (metis length_map)
  then have len: "length bs = length cues - 1" by simp
  from run[of "new_subtitle f"] len
  have "breakup_block L (concat (map cue_lines cues)) (new_subtitle f)
           = Inr ((new_subtitle f)\<lparr>heap := bs, blocks := [0..<length cues - 1]\<rparr>)"
    by (simp add: new_subtitle_def)
  with run[of s] len show ?thesis by simp
qed

theorem breakup_block_drops_last_witness:
  "\<not> numeric demo_libs 45
   \<and> demo_cues \<noteq> []
   \<and> list_all (cue_ok (numeric demo_libs)) demo_cues
   \<and> map (\<lambda>c. SubBlock demo_libs (join_nl (cue_lines c))) (butlast demo_cues)
       = map Some [\<lparr>content = ustr ''Hi'', current_index = 0, regex_matches = 0\<rparr>]
   \<and> list_all (\<lambda>b. content b \<noteq> [])
        [\<lparr>content = ustr ''Hi'', current_index = 0, regex_matches = 0\<rparr>]
   \<and> concat (map cue_lines demo_cues) = split_on NL (normalize two_cues)
   \<and> length demo_cues = 2
   \<and> breakup_block demo_libs (split_on NL (normalize two_cues)) (new_subtitle [ustr ''m.en.srt''])
       = Inr ((new_subtitle [ustr ''m.en.srt''])
            \<lparr>heap := [\<lparr>content = ustr ''Hi'', current_index = 0, regex_matches = 0\<rparr>],
             blocks := [0]\<rparr>)"
proof -
  have h1: "\<not> numeric demo_libs 45" by (simp add: demo_libs_def)
  have h2: "demo_cues \<noteq> []" by (simp add: demo_cues_def)
  have h3: "list_all (cue_ok (numeric demo_libs)) demo_cues"
    by (simp add: demo_cues_def cue_ok_def demo_libs_def isnumeric_def ustr_def arrow_def)
  have h4: "map (\<lambda>c. SubBlock demo_libs (join_nl (cue_lines c))) (butlast demo_cues)
       = map Some [\<lparr>content = ustr ''Hi'', current_index = 0, regex_matches = 0\<rparr>]"
    by (simp add: demo_cues_def cue_lines_def demo_libs_def ustr_def demo_blocks)
  have h5: "list_all (\<lambda>b. content b \<noteq> [])
        [\<lparr>content = ustr ''Hi'', current_index = 0, regex_matches = 0\<rparr>]"
    by (simp add: ustr_def)
  have l: "concat (map cue_lines demo_cues) = split_on NL (normalize two_cues)"
    by (simp add: two_cues_lines demo_cues_def cue_lines_def ustr_def)
  have n: "length demo_cues = 2" by (simp add: demo_cues_def)
  from breakup_block_drops_last[OF h1 h2 h3 h4 h5, of "new_subtitle [ustr ''m.en.srt'']"
      "[ustr ''m.en.srt'']"] h1 h2 h3 h4 h5 l n
  show ?thesis by (simp add: new_subtitle_def)
qed

text \<open>
  C2. In the document a successful construction returns, and after any sequence of
  \<open>warn\<close>, \<open>ad\<close>, \<open>mark_blocks_for_deletion\<close>, \<open>reindex\<close> and \<open>to_content\<close> calls on it,
  no block is in both the ad set and the warning set.
\<close>

theorem ad_warning_disjoint:
  "subtitle_init L A f = Inr s0 \<Longrightarrow>
   ad_blocks (run L s0 calls) \<inter> warning_blocks (run L s0 calls) = {}"
  by (rule run_disjoint) (simp add: init_frame)

theorem ad_warning_disjoint_witness:
  "subtitle_init demo_libs demo_settings [ustr ''four.srt''] = Inr demo_doc3
   \<and> ad_blocks (run demo_libs demo_doc3
         [Warn 0, Warn 1, Ad 0, Warn 0, MarkForDeletion [2, 99], Reindex, Render])
       \<inter> warning_blocks (run demo_libs demo_doc3
         [Warn 0, Warn 1, Ad 0, Warn 0, MarkForDeletion [2, 99], Reindex, Render]) = {}"
  using ad_warning_disjoint[OF demo_init_four,
      of "[Warn 0, Warn 1, Ad 0, Warn 0, MarkForDeletion [2, 99], Reindex, Render]"]
    demo_init_four
  by simp

text \<open>
  C3. For every block \<open>b\<close>: after \<open>warn(b)\<close> then \<open>ad(b)\<close> the block is in the ad set
  and not in the warning set; after \<open>ad(b)\<close> then \<open>warn(b)\<close> it is in the ad set only;
  and a second \<open>ad(b)\<close> changes nothing.
\<close>

theorem warn_ad_order:
  "b \<in> ad_blocks (ad b (warn b s)) \<and> b \<notin> warning_blocks (ad b (warn b s))
   \<and> b \<in> ad_blocks (warn b (ad b s)) \<and> b \<notin> warning_blocks (warn b (ad b s))
   \<and> warn b (ad b s) = ad b s
   \<and> ad b (ad b s) = ad b s"
  by (simp add: warn_def ad_def insert_absorb2)

text \<open>
  C4. The positions \<open>1..N\<close> get the score 3, and a position above \<open>N\<close> changes nothing
  (\<open>mark_in_range\<close>, \<open>mark_above_range\<close>). Below 1 the claim fails on the code: on the
  three-block document built from \<open>four.srt\<close>, position 0 sets the score of the last
  block, and position -3 raises \<open>IndexError\<close>.
\<close>

theorem mark_position_zero:
  "subtitle_init demo_libs demo_settings [ustr ''four.srt''] = Inr demo_doc3
   \<and> length (blocks demo_doc3) = 3
   \<and> map (\<lambda>r. regex_matches (heap demo_doc3 ! r)) (blocks demo_doc3) = [0, 0, 0]
   \<and> fst (mark_blocks_for_deletion [0] demo_doc3) = Inr ()
   \<and> map (\<lambda>r. regex_matches (heap (snd (mark_blocks_for_deletion [0] demo_doc3)) ! r))
         (blocks (snd (mark_blocks_for_deletion [0] demo_doc3))) = [0, 0, 3]
   \<and> fst (mark_blocks_for_deletion [- 3] demo_doc3) = Inl IndexError
   \<and> map (\<lambda>r. regex_matches (heap (snd (mark_blocks_for_deletion [2, 99] demo_doc3)) ! r))
         (blocks (snd (mark_blocks_for_deletion [2, 99] demo_doc3))) = [0, 3, 0]"
  by (simp add: demo_init_four) (simp add: demo_doc3_def)

text \<open>
  C5. When the file has been read and segmented, construction fails with
  \<open>SubtitleContentException\<close> exactly when no block of the segmentation has content,
  and the exception then carries the path of the file.
\<close>

theorem empty_content_error:
  assumes "read_file L f = Inr c"
    and "parse_file_content L c (new_subtitle f) = Inr s1"
  shows "(subtitle_init L A f = Inl (SubtitleContentException p))
         = (p = f \<and> (\<forall>r\<in>set (blocks s1). content (heap s1 ! r) = []))"
proof (cases "\<exists>r\<in>set (blocks s1). content (heap s1 ! r) \<noteq> []")
  case False
  then have "\<not> any_content (heap s1) (blocks s1)" by (simp add: any_content_iff)
  with assms init_after_parse(1)[OF assms] have
    "subtitle_init L A f = Inl (SubtitleContentException f)"
    by (simp add: subtitle_init_def subtitle_bool_def Let_def)
  with False show ?thesis by auto
next
  case True
  then have a: "any_content (heap s1) (blocks s1)" by (simp add: any_content_iff)
  have "subtitle_init L A f \<noteq> Inl (SubtitleContentException p)"
    using assms a
    by (auto simp add: subtitle_init_def subtitle_bool_def Let_def no_content_error_later
        split: prod.splits sum.splits)
  with True show ?thesis by auto
qed

theorem empty_content_error_witness:
  "read_file demo_libs [ustr ''s.srt''] = Inr two_lines
   \<and> parse_file_content demo_libs two_lines (new_subtitle [ustr ''s.srt''])
       = Inr (new_subtitle [ustr ''s.srt''])
   \<and> subtitle_init demo_libs demo_settings [ustr ''s.srt'']
       = Inl (SubtitleContentException [ustr ''s.srt''])
   \<and> read_file demo_libs [ustr ''m.en.srt''] = Inr two_cues
   \<and> parse_file_content demo_libs two_cues (new_subtitle [ustr ''m.en.srt''])
       = Inr ((new_subtitle [ustr ''m.en.srt''])
           \<lparr>heap := [\<lparr>content = [72,105], current_index = 0, regex_matches = 0\<rparr>],
            blocks := [0]\<rparr>)
   \<and> subtitle_init demo_libs demo_settings [ustr ''m.en.srt'']
       \<noteq> Inl (SubtitleContentException [ustr ''m.en.srt''])"
proof -
  have p: "parse_file_content demo_libs two_lines (new_subtitle [ustr ''s.srt''])
       = Inr (new_subtitle [ustr ''s.srt''])"
    by (simp add: parse_file_content_def two_lines_lines breakup_block_def breakup_loop_done)
  from empty_content_error[OF demo_read(3) p, of demo_settings "[ustr ''s.srt'']"]
  have a: "subtitle_init demo_libs demo_settings [ustr ''s.srt'']
       = Inl (SubtitleContentException [ustr ''s.srt''])"
    by (simp add: new_subtitle_def)
  from empty_content_error[OF demo_read(1) demo_parse_two, of demo_settings "[ustr ''m.en.srt'']"]
  have b: "subtitle_init demo_libs demo_settings [ustr ''m.en.srt'']
       \<noteq> Inl (SubtitleContentException [ustr ''m.en.srt''])"
    by (simp add: new_subtitle_def)
  from demo_read(1) demo_read(3) p demo_parse_two a b show ?thesis by simp
qed

text \<open>
  C6. When a language override is given, the statement that sets the language stores
  the override and nothing else of the document changes, whatever the default language,
  the registry and the detector are; a constructed document has the override as its
  language.
\<close>

theorem override_language:
  assumes "args_language A = Some l" and "l \<noteq> []"
  shows "set_language L A s = (Inr (), s\<lparr>language := l\<rparr>)
         \<and> (subtitle_init L A f = Inr s' \<longrightarrow> language s' = l)"
proof -
  from assms have t: "truthy (args_language A)" by (simp add: truthy_def)
  with assms have a: "\<And>s. set_language L A s = (Inr (), s\<lparr>language := l\<rparr>)"
    by (simp add: set_language_def)
  have "language s' = l" if i: "subtitle_init L A f = Inr s'"
  proof -
    from i obtain c s1 s3 where
      s3: "s3 = snd (set_language L A (s1\<lparr>short_path :=
            (case relative_to L (sub_file s1) (config_relative_base A) of
               Some p \<Rightarrow> p | None \<Rightarrow> sub_file s1)\<rparr>))"
      and s: "s' = s3 \<or> s' = snd (mark_blocks_for_deletion (the (args_destroy_list A)) s3)"
      by (rule init_Inr)
    from s3 have "language s3 = l" by (simp add: a)
    with s show ?thesis by (auto simp add: mark_frame)
  qed
  with a show ?thesis by simp
qed

theorem override_language_witness:
  "args_language (demo_settings\<lparr>args_language := Some (ustr ''fr'')\<rparr>) = Some (ustr ''fr'')
   \<and> ustr ''fr'' \<noteq> []
   \<and> set_language demo_libs (demo_settings\<lparr>args_language := Some (ustr ''fr'')\<rparr>) demo_doc
       = (Inr (), demo_doc\<lparr>language := ustr ''fr''\<rparr>)
   \<and> subtitle_init demo_libs (demo_settings\<lparr>args_language := Some (ustr ''fr'')\<rparr>)
         [ustr ''m.en.srt''] = Inr (demo_doc\<lparr>language := ustr ''fr''\<rparr>)
   \<and> language (demo_doc\<lparr>language := ustr ''fr''\<rparr>) = ustr ''fr''"
proof -
  have h1: "args_language (demo_settings\<lparr>args_language := Some (ustr ''fr'')\<rparr>) = Some (ustr ''fr'')"
    by simp
  have h2: "ustr ''fr'' \<noteq> []" by (simp add: ustr_def)
  have i: "subtitle_init demo_libs (demo_settings\<lparr>args_language := Some (ustr ''fr'')\<rparr>)
         [ustr ''m.en.srt''] = Inr (demo_doc\<lparr>language := ustr ''fr''\<rparr>)"
    by (simp add: subtitle_init_def demo_read demo_parse_two)
       (simp add: demo_libs_def demo_settings_def new_subtitle_def subtitle_bool_def
          set_language_def truthy_def demo_paths language_is_correct_def und_def
          demo_doc_def ustr_def)
  from override_language[OF h1 h2, of demo_libs demo_doc "[ustr ''m.en.srt'']"
      "demo_doc\<lparr>language := ustr ''fr''\<rparr>"] h1 h2 i
  show ?thesis by simp
qed

text \<open>
  C7. \<open>language_is_correct\<close> answers \<open>True\<close> when the language is \<open>und\<close>, when the
  registry gives no 2-letter code for it, and when the blocks hold fewer than 500
  characters together. Otherwise, with \<open>g\<close> the first guess of the detector, it answers
  whether \<open>g\<close> names the 2-letter code with a probability above \<open>0.8\<close>. The document,
  and so its language, is the same after the call.
\<close>

theorem language_is_correct_cases:
  "(language s = und \<longrightarrow> fst (language_is_correct L s) = Inr True)
   \<and> (\<not> truthy (get_2letter_code L (language s)) \<longrightarrow> fst (language_is_correct L s) = Inr True)
   \<and> (length (concat (map (\<lambda>r. content (heap s ! r)) (blocks s))) < 500
        \<longrightarrow> fst (language_is_correct L s) = Inr True)
   \<and> (language s \<noteq> und \<and> get_2letter_code L (language s) = Some code \<and> code \<noteq> []
        \<and> 500 \<le> length (concat (map (\<lambda>r. content (heap s ! r)) (blocks s)))
        \<and> detect_langs L (concat (map (\<lambda>r. content (heap s ! r)) (blocks s))) = Some (g # gs)
        \<longrightarrow> fst (language_is_correct L s) = Inr (lang g = code \<and> float_0_8 < prob g))
   \<and> snd (language_is_correct L s) = s
   \<and> language (snd (language_is_correct L s)) = language s"
  by (simp add: language_is_correct_def Let_def truthy_def sub_content_concat
      split: option.splits list.splits)

theorem language_is_correct_cases_witness:
  "language demo_doc3 = und
   \<and> fst (language_is_correct demo_libs demo_doc3) = Inr True
   \<and> \<not> truthy (get_2letter_code demo_libs (language (demo_doc\<lparr>language := ustr ''fr''\<rparr>)))
   \<and> fst (language_is_correct demo_libs (demo_doc\<lparr>language := ustr ''fr''\<rparr>)) = Inr True
   \<and> length (concat (map (\<lambda>r. content (heap demo_doc ! r)) (blocks demo_doc))) < 500
   \<and> fst (language_is_correct demo_libs demo_doc) = Inr True
   \<and> language demo_long_doc \<noteq> und
   \<and> get_2letter_code demo_libs (language demo_long_doc) = Some (ustr ''en'')
   \<and> 500 \<le> length (concat (map (\<lambda>r. content (heap demo_long_doc ! r)) (blocks demo_long_doc)))
   \<and> detect_langs demo_libs (concat (map (\<lambda>r. content (heap demo_long_doc ! r)) (blocks demo_long_doc)))
        = Some [\<lparr>lang = ustr ''fr'', prob = 95 / 100\<rparr>]
   \<and> fst (language_is_correct demo_libs demo_long_doc) = Inr False
   \<and> language (snd (language_is_correct demo_libs demo_long_doc)) = ustr ''en''"
proof -
  have a: "language demo_doc3 = und" by (simp add: demo_doc3_def)
  have b: "\<not> truthy (get_2letter_code demo_libs (language (demo_doc\<lparr>language := ustr ''fr''\<rparr>)))"
    by (simp add: demo_libs_def truthy_def ustr_def)
  have c: "length (concat (map (\<lambda>r. content (heap demo_doc ! r)) (blocks demo_doc))) < 500"
    by (simp add: demo_doc_def ustr_def)
  have d1: "language demo_long_doc \<noteq> und"
    by (simp add: demo_long_doc_def demo_doc_def und_def ustr_def)
  have d2: "get_2letter_code demo_libs (language demo_long_doc) = Some (ustr ''en'')"
    by (simp add: demo_long_doc_def demo_doc_def demo_libs_def ustr_def)
  have d3: "500 \<le> length (concat (map (\<lambda>r. content (heap demo_long_doc ! r)) (blocks demo_long_doc)))"
    by (simp add: demo_long_doc_def demo_doc_def)
  have d4: "detect_langs demo_libs
       (concat (map (\<lambda>r. content (heap demo_long_doc ! r)) (blocks demo_long_doc)))
        = Some [\<lparr>lang = ustr ''fr'', prob = 95 / 100\<rparr>]"
    by (simp add: demo_libs_def ustr_def)
  have e: "ustr ''en'' \<noteq> []" "ustr ''fr'' \<noteq> ustr ''en''" "language demo_long_doc = ustr ''en''"
    by (simp_all add: ustr_def demo_long_doc_def demo_doc_def)
  from language_is_correct_cases[of demo_doc3 demo_libs]
    language_is_correct_cases[of "demo_doc\<lparr>language := ustr ''fr''\<rparr>" demo_libs]
    language_is_correct_cases[of demo_doc demo_libs]
    language_is_correct_cases[of demo_long_doc demo_libs "ustr ''en''"
      "\<lparr>lang = ustr ''fr'', prob = 95 / 100\<rparr>" "[]"]
    a b c d1 d2 d3 d4 e
  show ?thesis by simp
qed

text \<open>
  C8. For a document reached from a successful construction by any calls, \<open>reindex\<close>
  keeps the block sequence and the contents, and gives the blocks, in their order, the
  indices 1, 2, ..., N; and a second \<open>to_content\<close> right after a first returns the same
  string.
\<close>

theorem reindex_render:
  assumes "subtitle_init L A f = Inr s0"
  shows "blocks (reindex (run L s0 calls)) = blocks (run L s0 calls)
    \<and> map (\<lambda>r. current_index (heap (reindex (run L s0 calls)) ! r)) (blocks (run L s0 calls))
        = map int [1..<Suc (length (blocks (run L s0 calls)))]
    \<and> map (\<lambda>r. content (heap (reindex (run L s0 calls)) ! r)) (blocks (run L s0 calls))
        = map (\<lambda>r. content (heap (run L s0 calls) ! r)) (blocks (run L s0 calls))
    \<and> fst (to_content L (snd (to_content L (reindex (run L s0 calls)))))
        = fst (to_content L (reindex (run L s0 calls)))"
proof -
  let ?s = "run L s0 calls"
  from run_refs[OF init_refs[OF assms], of L calls]
  have d: "distinct (blocks ?s)" and b: "list_all (\<lambda>r. r < length (heap ?s)) (blocks ?s)"
    by simp_all
  have "map (\<lambda>r. current_index (reindex_loop (blocks ?s) 1 (heap ?s) ! r)) (blocks ?s)
          = map (\<lambda>k. 1 + int k) [0..<length (blocks ?s)]"
    by (rule reindex_loop_index[OF d b])
  also have "\<dots> = map int [1..<Suc (length (blocks ?s))]"
    by (simp add: map_Suc_upt[symmetric] del: upt_Suc)
  finally have idx: "map (\<lambda>r. current_index (heap (reindex ?s) ! r)) (blocks ?s)
        = map int [1..<Suc (length (blocks ?s))]"
    by (simp add: reindex_def)
  show ?thesis
    using idx by (simp add: reindex_def to_content_def reindex_loop_content)
qed

theorem reindex_render_witness:
  "subtitle_init demo_libs demo_settings [ustr ''four.srt''] = Inr demo_doc3
   \<and> blocks (reindex (run demo_libs demo_doc3 [Warn 1, MarkForDeletion [2]])) = [0, 1, 2]
   \<and> map (\<lambda>r. current_index (heap (reindex (run demo_libs demo_doc3 [Warn 1, MarkForDeletion [2]])) ! r))
         (blocks (run demo_libs demo_doc3 [Warn 1, MarkForDeletion [2]])) = [1, 2, 3]
   \<and> fst (to_content demo_libs (reindex (run demo_libs demo_doc3 [Warn 1, MarkForDeletion [2]])))
       = [49, 10, 97, 10, 10, 50, 10, 98, 10, 10, 51, 10, 99, 10]
   \<and> fst (to_content demo_libs
         (snd (to_content demo_libs (reindex (run demo_libs demo_doc3 [Warn 1, MarkForDeletion [2]])))))
       = [49, 10, 97, 10, 10, 50, 10, 98, 10, 10, 51, 10, 99, 10]"
proof -
  have r: "run demo_libs demo_doc3 [Warn 1, MarkForDeletion [2]]
      = demo_doc3\<lparr>warning_blocks := {1},
          heap := [\<lparr>content = [97], current_index = 0, regex_matches = 0\<rparr>,
                   \<lparr>content = [98], current_index = 0, regex_matches = 3\<rparr>,
                   \<lparr>content = [99], current_index = 0, regex_matches = 0\<rparr>]\<rparr>"
    by (simp add: run_def warn_def demo_doc3_def ustr_def)
  have b: "blocks (run demo_libs demo_doc3 [Warn 1, MarkForDeletion [2]]) = [0, 1, 2]"
    unfolding r by (simp add: demo_doc3_def)
  have t: "fst (to_content demo_libs (reindex (run demo_libs demo_doc3 [Warn 1, MarkForDeletion [2]])))
       = [49, 10, 97, 10, 10, 50, 10, 98, 10, 10, 51, 10, 99, 10]"
    unfolding r
    by (simp add: reindex_def to_content_def demo_doc3_def demo_libs_def str_int_def
        digits.simps NL_def)
  have u: "[1..<Suc (length [0::nat, 1, 2])] = [1, 2, 3]"
    by (simp add: upt_rec)
  from reindex_render[OF demo_init_four, of "[Warn 1, MarkForDeletion [2]]"] demo_init_four b t u
  show ?thesis by simp
qed

text \<open>
  C9. With no default language configured, \<open>determine_language\<close> looks at the suffixes
  before the last one, at most two of them, and the first whose token (as the
  specification describes it) the registry recognises becomes the language. For the
  name \<open>movie.en.srt\<close> and a registry that recognises \<open>en\<close> the language is \<open>en\<close>,
  whatever the detector \<open>d\<close> would answer.
\<close>

theorem filename_language:
  assumes "\<not> truthy (config_default_language A)"
  shows "slice_m3_m1 (suffixes (sub_file s))
           = drop (length (butlast (suffixes (sub_file s))) - 2) (butlast (suffixes (sub_file s)))
    \<and> length (slice_m3_m1 (suffixes (sub_file s))) \<le> 2
    \<and> (find (is_language L) (map spec_token (slice_m3_m1 (suffixes (sub_file s)))) = Some t
         \<longrightarrow> determine_language L A s = (Inr (), s\<lparr>language := t\<rparr>))
    \<and> (path_name (sub_file s) = ustr ''movie.en.srt'' \<and> is_language L (ustr ''en'')
         \<longrightarrow> determine_language (L\<lparr>detect_langs := d\<rparr>) A s
               = (Inr (), s\<lparr>language := ustr ''en''\<rparr>))"
proof -
  have a: "slice_m3_m1 (suffixes (sub_file s))
           = drop (length (butlast (suffixes (sub_file s))) - 2) (butlast (suffixes (sub_file s)))"
    by (rule slice_m3_m1_butlast)
  have b: "length (slice_m3_m1 (suffixes (sub_file s))) \<le> 2"
    by (simp add: slice_m3_m1_def)
  have c: "find (is_language L) (map spec_token (slice_m3_m1 (suffixes (sub_file s)))) = Some t
         \<longrightarrow> determine_language L A s = (Inr (), s\<lparr>language := t\<rparr>)"
    using assms by (simp add: determine_by_suffix first_language_spec)
  have d: "path_name (sub_file s) = ustr ''movie.en.srt'' \<and> is_language L (ustr ''en'')
         \<longrightarrow> determine_language (L\<lparr>detect_langs := d\<rparr>) A s
               = (Inr (), s\<lparr>language := ustr ''en''\<rparr>)"
    using assms by (simp add: determine_by_suffix movie_suffixes parse_dot_en en_name)
  from a b c d show ?thesis by blast
qed

theorem filename_language_witness:
  "\<not> truthy (config_default_language demo_settings)
   \<and> path_name (sub_file (new_subtitle [ustr ''movie.en.srt''])) = ustr ''movie.en.srt''
   \<and> is_language demo_libs (ustr ''en'')
   \<and> find (is_language demo_libs)
        (map spec_token (slice_m3_m1 (suffixes (sub_file (new_subtitle [ustr ''movie.en.srt''])))))
       = Some (ustr ''en'')
   \<and> determine_language demo_libs demo_settings (new_subtitle [ustr ''movie.en.srt''])
       = (Inr (), (new_subtitle [ustr ''movie.en.srt''])\<lparr>language := ustr ''en''\<rparr>)
   \<and> determine_language (demo_libs\<lparr>detect_langs := (\<lambda>t. None)\<rparr>) demo_settings
         (new_subtitle [ustr ''movie.en.srt''])
       = (Inr (), (new_subtitle [ustr ''movie.en.srt''])\<lparr>language := ustr ''en''\<rparr>)"
proof -
  have h: "\<not> truthy (config_default_language demo_settings)"
    by (simp add: demo_settings_def truthy_def)
  have n: "path_name (sub_file (new_subtitle [ustr ''movie.en.srt''])) = ustr ''movie.en.srt''"
    by (simp add: new_subtitle_def path_name_def)
  have r: "is_language demo_libs (ustr ''en'')"
    by (simp add: demo_libs_def en_name)
  have f: "find (is_language demo_libs)
        (map spec_token (slice_m3_m1 (suffixes (sub_file (new_subtitle [ustr ''movie.en.srt''])))))
       = Some (ustr ''en'')"
    by (simp add: movie_suffixes[OF n] spec_token_def demo_libs_def en_name)
  from filename_language[OF h, of "new_subtitle [ustr ''movie.en.srt'']" demo_libs
      "ustr ''en''" "\<lambda>t. None"] h n r f
  show ?thesis by simp
qed

text \<open>
  C10. When the normalized text of the file splits into fewer than three lines, the
  segmentation adds no block to the new document, and construction fails with
  \<open>SubtitleContentException\<close> for the file, whatever the lines contain.
\<close>

theorem short_input_fails:
  assumes "read_file L f = Inr c"
    and "length (split_on NL (normalize c)) < 3"
  shows "parse_file_content L c (new_subtitle f) = Inr (new_subtitle f)
         \<and> blocks (new_subtitle f) = []
         \<and> subtitle_init L A f = Inl (SubtitleContentException f)"
proof -
  from assms(2) have p: "parse_file_content L c (new_subtitle f) = Inr (new_subtitle f)"
    by (simp add: parse_file_content_def breakup_block_def breakup_loop_done)
  have b: "blocks (new_subtitle f) = []" by (simp add: new_subtitle_def)
  from assms(1) p b have "subtitle_init L A f = Inl (SubtitleContentException f)"
    by (simp add: subtitle_init_def subtitle_bool_def Let_def new_subtitle_def)
  with p b show ?thesis by simp
qed

theorem short_input_fails_witness:
  "read_file demo_libs [ustr ''s.srt''] = Inr two_lines
   \<and> split_on NL (normalize two_lines) = [ustr ''Hello'', ustr ''world'']
   \<and> length (split_on NL (normalize two_lines)) < 3
   \<and> subtitle_init demo_libs demo_settings [ustr ''s.srt'']
       = Inl (SubtitleContentException [ustr ''s.srt''])"
proof -
  have l: "length (split_on NL (normalize two_lines)) < 3"
    by (simp add: two_lines_lines)
  have t: "split_on NL (normalize two_lines) = [ustr ''Hello'', ustr ''world'']"
    by (simp add: two_lines_lines ustr_def)
  from short_input_fails[OF demo_read(3) l, of demo_settings] demo_read(3) l t
  show ?thesis by simp
qed

end
